theory Spec2Isabelle
  imports Main
begin

section \<open>The SELFIES decoder of \<open>terminator/selfies.py\<close>\<close>

text \<open>
  A shallow embedding of the decoder. Python integers are \<open>int\<close>; strings are
  \<open>string\<close>, a character being the code point it has in Latin-1 (0 to 255), so
  \<open>isdigit\<close> and \<open>isalpha\<close> are Python's classes on these code points. Every exception of the source is a value of \<open>error\<close>: a function that
  can raise returns \<open>error + 'a\<close> with \<open>Inl\<close> the exception. \<open>Diverges\<close> is not an
  exception: it stands for a \<open>while\<close> loop of the source that never ends.
\<close>

datatype error = ValueError | IndexError | KeyError | Diverges

subsection \<open>Python primitives\<close>

text \<open>Sequencing: the first exception raised ends the computation.\<close>

definition bindE :: "error + 'a \<Rightarrow> ('a \<Rightarrow> error + 'b) \<Rightarrow> error + 'b" where
  "bindE m f = (case m of Inl e \<Rightarrow> Inl e | Inr x \<Rightarrow> f x)"

text \<open>\<open>xs[i]\<close>: a negative index counts from the end; out of range raises.\<close>

definition py_pos :: "nat \<Rightarrow> int \<Rightarrow> nat option" where
  "py_pos len i =
     (if 0 \<le> i \<and> i < int len then Some (nat i)
      else if i < 0 \<and> - int len \<le> i then Some (nat (int len + i))
      else None)"

definition py_index :: "'a list \<Rightarrow> int \<Rightarrow> error + 'a" where
  "py_index xs i =
     (case py_pos (length xs) i of None \<Rightarrow> Inl IndexError | Some j \<Rightarrow> Inr (xs ! j))"

text \<open>\<open>xs[i]\<close> for an index that is never negative.\<close>

definition nth_err :: "'a list \<Rightarrow> nat \<Rightarrow> error + 'a" where
  "nth_err xs i = (if i < length xs then Inr (xs ! i) else Inl IndexError)"

text \<open>\<open>s[a:b]\<close> for \<open>0 \<le> a\<close> and \<open>0 \<le> b\<close>; empty when \<open>b \<le> a\<close>.\<close>

definition py_slice :: "'a list \<Rightarrow> nat \<Rightarrow> nat \<Rightarrow> 'a list" where
  "py_slice s a b = take (b - a) (drop a s)"

text \<open>The digits \<open>0\<close> to \<open>9\<close>.\<close>

definition ascii_digit :: "char \<Rightarrow> bool" where
  "ascii_digit c = (48 \<le> (of_char c :: nat) \<and> (of_char c :: nat) \<le> 57)"

text \<open>
  \<open>c.isdigit()\<close>: the digits \<open>0\<close> to \<open>9\<close> and the superscript digits
  (U+00B2, U+00B3, U+00B9).
\<close>

definition isdigit :: "char \<Rightarrow> bool" where
  "isdigit c = (ascii_digit c \<or> (of_char c :: nat) \<in> {0xB2, 0xB3, 0xB9})"

text \<open>
  \<open>c.isalpha()\<close>: the letters \<open>A\<close> to \<open>Z\<close> and \<open>a\<close> to \<open>z\<close>, and the
  letters of Latin-1 (U+00AA, U+00B5, U+00BA, U+00C0 to U+00D6, U+00D8 to U+00F6,
  U+00F8 to U+00FF).
\<close>

definition isalpha :: "char \<Rightarrow> bool" where
  "isalpha c = ((65 \<le> (of_char c :: nat) \<and> (of_char c :: nat) \<le> 90)
              \<or> (97 \<le> (of_char c :: nat) \<and> (of_char c :: nat) \<le> 122)
              \<or> (of_char c :: nat) \<in> {0xAA, 0xB5, 0xBA}
              \<or> (0xC0 \<le> (of_char c :: nat) \<and> (of_char c :: nat) \<le> 0xD6)
              \<or> (0xD8 \<le> (of_char c :: nat) \<and> (of_char c :: nat) \<le> 0xF6)
              \<or> (0xF8 \<le> (of_char c :: nat) \<and> (of_char c :: nat) \<le> 0xFF))"

text \<open>
  \<open>int(c)\<close> for a string of one character: \<open>ValueError\<close> unless it is one of
  \<open>0\<close> to \<open>9\<close> (a superscript digit is refused).
\<close>

definition int_of_char :: "char \<Rightarrow> error + int" where
  "int_of_char c = (if ascii_digit c then Inr (int (of_char c) - 48) else Inl ValueError)"

text \<open>
  \<open>int(s)\<close> for a string of characters of the class \<open>isdigit\<close>: \<open>ValueError\<close>
  when the string is empty or holds a superscript digit.
\<close>

definition int_of_digits :: "string \<Rightarrow> error + int" where
  "int_of_digits s =
     (if s \<noteq> [] \<and> list_all ascii_digit s
      then Inr (foldl (\<lambda>a c. 10 * a + (int (of_char c) - 48)) 0 s)
      else Inl ValueError)"

text \<open>\<open>str(n)\<close> for \<open>0 \<le> n\<close>.\<close>

fun str_nat :: "nat \<Rightarrow> string" where
  "str_nat n =
     (if n < 10 then [''0123456789'' ! n]
      else str_nat (n div 10) @ [''0123456789'' ! (n mod 10)])"

text \<open>\<open>"{:+}".format(n)\<close>: the sign, then the decimal digits.\<close>

definition format_signed :: "int \<Rightarrow> string" where
  "format_signed n = (if n < 0 then ''-'' @ str_nat (nat (- n)) else ''+'' @ str_nat (nat n))"

text \<open>\<open>sub in s\<close> for strings.\<close>

fun contains :: "string \<Rightarrow> string \<Rightarrow> bool" where
  "contains sub [] = (sub = [])"
| "contains sub (c # cs) = (take (length sub) (c # cs) = sub \<or> contains sub cs)"

text \<open>\<open>s.find(c, start)\<close> for a single character: the first index from \<open>start\<close> on, or \<open>-1\<close>.\<close>

fun find_char :: "char \<Rightarrow> string \<Rightarrow> nat option" where
  "find_char c [] = None"
| "find_char c (x # xs) = (if x = c then Some 0 else map_option Suc (find_char c xs))"

definition py_find :: "string \<Rightarrow> char \<Rightarrow> nat \<Rightarrow> int" where
  "py_find s c start =
     (case find_char c (drop start s) of None \<Rightarrow> - 1 | Some k \<Rightarrow> int (start + k))"

text \<open>\<open>s.split(".")\<close>: always at least one piece.\<close>

fun split_dot :: "string \<Rightarrow> string list" where
  "split_dot [] = [[]]"
| "split_dot (c # cs) =
     (case split_dot cs of
        [] \<Rightarrow> [[]]
      | p # ps \<Rightarrow> if c = CHR ''.'' then [] # p # ps else (c # p) # ps)"

text \<open>\<open>'.'.join(xs)\<close>.\<close>

fun join_dot :: "string list \<Rightarrow> string" where
  "join_dot [] = []"
| "join_dot [x] = x"
| "join_dot (x # y # ys) = x @ ''.'' @ join_dot (y # ys)"

text \<open>\<open>d[k] = v\<close> on an insertion-ordered dictionary: an existing key keeps its place.\<close>

fun dict_set :: "('k \<times> 'v) list \<Rightarrow> 'k \<Rightarrow> 'v \<Rightarrow> ('k \<times> 'v) list" where
  "dict_set [] k v = [(k, v)]"
| "dict_set ((k', v') # kvs) k v =
     (if k' = k then (k, v) # kvs else (k', v') # dict_set kvs k v)"

subsection \<open>The constraint registry\<close>

text \<open>
  A bond-constraint table is a Python \<open>dict\<close> from atom-or-ion keys to bond counts, kept
  as its items in insertion order. Dictionaries are objects: the registry holds the
  dictionaries allocated so far in \<open>heap\<close>, an address being an index into it, and the
  module global \<open>_bond_constraints\<close> is the address of the active table. The three
  presets are the module-level dictionaries at addresses 0, 1 and 2.
\<close>

type_synonym table = "(string \<times> int) list"

definition default_bond_constraints :: table where
  "default_bond_constraints =
     [(''H'', 1), (''F'', 1), (''Cl'', 1), (''Br'', 1), (''I'', 1),
      (''O'', 2), (''O+1'', 3), (''O-1'', 1),
      (''N'', 3), (''N+1'', 4), (''N-1'', 2),
      (''C'', 4), (''C+1'', 5), (''C-1'', 3),
      (''P'', 5), (''P+1'', 6), (''P-1'', 4),
      (''S'', 6), (''S+1'', 7), (''S-1'', 5),
      (''?'', 8)]"

text \<open>\<open>d.update(items)\<close>.\<close>

definition dict_update :: "('k \<times> 'v) list \<Rightarrow> ('k \<times> 'v) list \<Rightarrow> ('k \<times> 'v) list" where
  "dict_update d items = foldl (\<lambda>acc (k, v). dict_set acc k v) d items"

definition octet_rule_bond_constraints :: table where
  "octet_rule_bond_constraints =
     dict_update default_bond_constraints
       [(''S'', 2), (''S+1'', 3), (''S-1'', 1), (''P'', 3), (''P+1'', 4), (''P-1'', 2)]"

definition hypervalent_bond_constraints :: table where
  "hypervalent_bond_constraints =
     dict_update default_bond_constraints
       [(''Cl'', 7), (''Br'', 7), (''I'', 7), (''N'', 5)]"

record registry =
  heap :: "table list"
  bond_constraints :: nat

definition default_addr :: nat where "default_addr = 0"
definition octet_rule_addr :: nat where "octet_rule_addr = 1"
definition hypervalent_addr :: nat where "hypervalent_addr = 2"

text \<open>The module as it is after import: \<open>_bond_constraints = default_bond_constraints\<close>.\<close>

definition init_registry :: registry where
  "init_registry =
     \<lparr>heap = [default_bond_constraints, octet_rule_bond_constraints,
              hypervalent_bond_constraints],
      bond_constraints = default_addr\<rparr>"

text \<open>The contents of the active table.\<close>

definition active_table :: "registry \<Rightarrow> table" where
  "active_table reg = heap reg ! bond_constraints reg"

text \<open>\<open>dict(d)\<close>: a new dictionary with the same items, at a fresh address.\<close>

definition dict_copy :: "nat \<Rightarrow> registry \<Rightarrow> nat \<times> registry" where
  "dict_copy a reg = (length (heap reg), reg\<lparr>heap := heap reg @ [heap reg ! a]\<rparr>)"

definition get_default_constraints :: "registry \<Rightarrow> nat \<times> registry" where
  "get_default_constraints reg = dict_copy default_addr reg"

definition get_octet_rule_constraints :: "registry \<Rightarrow> nat \<times> registry" where
  "get_octet_rule_constraints reg = dict_copy octet_rule_addr reg"

definition get_hypervalent_constraints :: "registry \<Rightarrow> nat \<times> registry" where
  "get_hypervalent_constraints reg = dict_copy hypervalent_addr reg"

definition get_semantic_constraints :: "registry \<Rightarrow> nat \<times> registry" where
  "get_semantic_constraints reg = dict_copy (bond_constraints reg) reg"

text \<open>
  \<open>set_semantic_constraints\<close> takes \<open>None\<close> or the address of the caller's dictionary.
  It returns the exception raised, if any, and the registry it leaves behind.
\<close>

definition values_in_range :: "table \<Rightarrow> bool" where
  "values_in_range t = list_all (\<lambda>(key, v). 1 \<le> v \<and> v \<le> 8) t"

text \<open>The table passes the check of \<open>set_semantic_constraints\<close> (lines 170 to 178).\<close>

definition valid_table :: "table \<Rightarrow> bool" where
  "valid_table t = (map_of t ''?'' \<noteq> None \<and> values_in_range t)"

definition set_semantic_constraints :: "nat option \<Rightarrow> registry \<Rightarrow> error option \<times> registry" where
  "set_semantic_constraints arg reg =
     (case arg of
        None \<Rightarrow> (None, reg\<lparr>bond_constraints := default_addr\<rparr>)
      | Some a \<Rightarrow>
          if map_of (heap reg ! a) ''?'' = None then (Some ValueError, reg)
          else if \<not> values_in_range (heap reg ! a) then (Some ValueError, reg)
          else let (c, reg') = dict_copy a reg in (None, reg'\<lparr>bond_constraints := c\<rparr>))"

subsection \<open>Helper functions\<close>

definition get_num_from_bond :: "string \<Rightarrow> int" where
  "get_num_from_bond bond_symbol =
     (if bond_symbol = ''='' then 2 else if bond_symbol = ''#'' then 3 else 1)"

text \<open>\<open>('', '=', '#')[n - 1]\<close>: an index into a tuple of three.\<close>

definition get_bond_from_num :: "int \<Rightarrow> error + string" where
  "get_bond_from_num n = py_index ['''', ''='', ''#''] (n - 1)"

text \<open>
  \<open>while s[i].isdigit(): i += 1\<close> and its like: the loop reads \<open>s[i]\<close> before every
  step, so it ends at the first character outside the class, or with \<open>IndexError\<close> at
  the end of the string. The second argument is the rest of the string from \<open>i\<close> on.
\<close>

fun skip_while_aux :: "(char \<Rightarrow> bool) \<Rightarrow> string \<Rightarrow> nat \<Rightarrow> error + nat" where
  "skip_while_aux P [] i = Inl IndexError"
| "skip_while_aux P (c # cs) i = (if P c then skip_while_aux P cs (Suc i) else Inr i)"

definition skip_while :: "(char \<Rightarrow> bool) \<Rightarrow> string \<Rightarrow> nat \<Rightarrow> error + nat" where
  "skip_while P s i = skip_while_aux P (drop i s) i"

definition find_element :: "string \<Rightarrow> error + (nat \<times> nat)" where
  "find_element atom_symbol =
     bindE (nth_err atom_symbol 0) (\<lambda>c0.
       if c0 \<noteq> CHR ''['' then Inr (0, length atom_symbol)
       else
         bindE (skip_while isdigit atom_symbol 1) (\<lambda>i.
         bindE (nth_err atom_symbol (i + 1)) (\<lambda>c.
           if isalpha c \<and> c \<noteq> CHR ''H'' then Inr (i, i + 2) else Inr (i, i + 1))))"

text \<open>\<open>if atom_symbol[i] == '@': i += 1\<close>, as it stands twice in \<open>parse_atom_symbol\<close>.\<close>

definition skip_at :: "string \<Rightarrow> nat \<Rightarrow> error + nat" where
  "skip_at atom_symbol i =
     bindE (nth_err atom_symbol i) (\<lambda>c. Inr (if c = CHR ''@'' then i + 1 else i))"

text \<open>The hydrogen count and the index after it (lines 414 to 421).\<close>

definition parse_h_count :: "string \<Rightarrow> nat \<Rightarrow> error + (int \<times> nat)" where
  "parse_h_count atom_symbol i =
     bindE (nth_err atom_symbol i) (\<lambda>c.
       if c = CHR ''H'' then
         bindE (nth_err atom_symbol (i + 1)) (\<lambda>d.
           if isdigit d then bindE (int_of_char d) (\<lambda>h_count. Inr (h_count, i + 2))
           else Inr (1, i + 1))
       else Inr (0, i))"

text \<open>
  \<open>while atom_symbol[i] in ('+', '-'): charge += ...; i += 1\<close>, on the rest of the
  string from \<open>i\<close> on.
\<close>

fun charge_run :: "string \<Rightarrow> int \<Rightarrow> error + int" where
  "charge_run [] charge = Inl IndexError"
| "charge_run (c # cs) charge =
     (if c = CHR ''+'' then charge_run cs (charge + 1)
      else if c = CHR ''-'' then charge_run cs (charge - 1)
      else Inr charge)"

text \<open>The charge (lines 423 to 437).\<close>

definition parse_charge :: "string \<Rightarrow> nat \<Rightarrow> error + int" where
  "parse_charge atom_symbol i =
     bindE (nth_err atom_symbol i) (\<lambda>c.
       if c = CHR ''+'' \<or> c = CHR ''-'' then
         (let charge = (if c = CHR ''+'' then 1 else - 1) in
          bindE (nth_err atom_symbol (i + 1)) (\<lambda>d.
            if d = CHR ''+'' \<or> d = CHR ''-'' then charge_run (drop (i + 1) atom_symbol) charge
            else if isdigit d then
              bindE (skip_while isdigit atom_symbol (i + 1)) (\<lambda>j.
              bindE (int_of_digits (py_slice atom_symbol (i + 1) j)) (\<lambda>n.
                Inr (charge * n)))
            else Inr charge))
       else Inr 0)"

definition parse_atom_symbol :: "string \<Rightarrow> error + (string \<times> int \<times> int)" where
  "parse_atom_symbol atom_symbol =
     bindE (nth_err atom_symbol 0) (\<lambda>c0.
       if c0 \<noteq> CHR ''['' then Inr (atom_symbol, 0, 0)
       else
         bindE (find_element atom_symbol) (\<lambda>(atom_start, atom_end).
         bindE (skip_at atom_symbol atom_end) (\<lambda>i1.
         bindE (skip_at atom_symbol i1) (\<lambda>i2.
         bindE (parse_h_count atom_symbol i2) (\<lambda>(h_count, i3).
         bindE (parse_charge atom_symbol i3) (\<lambda>charge.
           Inr (py_slice atom_symbol atom_start atom_end, h_count, charge)))))))"

subsection \<open>Symbol state functions\<close>

text \<open>The bond character of a symbol (lines 201 to 203).\<close>

definition symbol_bond :: "string \<Rightarrow> error + string" where
  "symbol_bond symbol =
     bindE (py_index symbol 1) (\<lambda>c.
       Inr (if c \<in> {CHR ''/'', CHR 0x5C, CHR ''='', CHR ''#''} then [c] else ''''))"

text \<open>
  The SMILES atom of a symbol (lines 206 to 209). \<open>symbol[-5:]\<close> is the last five
  characters; \<open>symbol[a:-5]\<close> and \<open>symbol[a:-1]\<close> end five and one before the end.
\<close>

definition symbol_smiles :: "string \<Rightarrow> string \<Rightarrow> string" where
  "symbol_smiles symbol bond =
     (if drop (length symbol - 5) symbol = ''expl]''
      then ''['' @ py_slice symbol (1 + length bond) (length symbol - 5) @ '']''
      else py_slice symbol (1 + length bond) (length symbol - 1))"

text \<open>The key of the constraint table (lines 214 to 217).\<close>

definition atom_or_ion :: "string \<Rightarrow> int \<Rightarrow> string" where
  "atom_or_ion element charge =
     (if charge = 0 then element else element @ format_signed charge)"

text \<open>
  \<open>_bond_constraints.get(key, _bond_constraints['?'])\<close>: the default is evaluated
  first, so a table without \<open>?\<close> raises \<open>KeyError\<close>.
\<close>

definition lookup_max_bonds :: "table \<Rightarrow> string \<Rightarrow> error + int" where
  "lookup_max_bonds bc key =
     (case map_of bc ''?'' of None \<Rightarrow> Inl KeyError
      | Some dflt \<Rightarrow> Inr (case map_of bc key of None \<Rightarrow> dflt | Some v \<Rightarrow> v))"

text \<open>
  \<open>get_next_state\<close> reads the global \<open>_bond_constraints\<close>: the contents of the
  active table are the first argument.
\<close>

definition get_next_state :: "table \<Rightarrow> string \<Rightarrow> int \<Rightarrow> error + (string \<times> int)" where
  "get_next_state bc symbol state =
     (if symbol = ''[epsilon]'' then Inr ('''', if state = 0 then 0 else - 1)
      else
        bindE (symbol_bond symbol) (\<lambda>bond.
        let bond_num = get_num_from_bond bond;
            smiles_symbol = symbol_smiles symbol bond in
        bindE (parse_atom_symbol smiles_symbol) (\<lambda>(element, h_count, charge).
        bindE (lookup_max_bonds bc (atom_or_ion element charge)) (\<lambda>max_bonds.
          if h_count > max_bonds \<or> (h_count = max_bonds \<and> state > 0) then Inl ValueError
          else
            let max_bonds = max_bonds - h_count in
            if state = 0 then Inr (smiles_symbol, max_bonds)
            else
              bindE (if bond_num > min state max_bonds
                     then bindE (get_bond_from_num (min state max_bonds))
                            (\<lambda>b. Inr (min state max_bonds, b))
                     else Inr (bond_num, bond)) (\<lambda>(bond_num, bond).
              let next_state = max_bonds - bond_num in
              Inr (bond @ smiles_symbol, if next_state = 0 then - 1 else next_state))))))"

subsection \<open>Branch state function\<close>

text \<open>\<open>int(branch_symbol[-2])\<close>: the \<open>X\<close> of \<open>[BranchL_X]\<close> (line 259).\<close>

definition branch_type :: "string \<Rightarrow> error + int" where
  "branch_type branch_symbol = bindE (py_index branch_symbol (- 2)) int_of_char"

definition get_next_branch_state :: "string \<Rightarrow> int \<Rightarrow> error + (int \<times> int)" where
  "get_next_branch_state branch_symbol state =
     bindE (branch_type branch_symbol) (\<lambda>branch_type.
       if \<not> (1 \<le> branch_type \<and> branch_type \<le> 3) then Inl ValueError
       else if 2 \<le> state \<and> state \<le> 8 then
         (let branch_init_state = min (state - 1) branch_type;
              next_state = state - branch_init_state
          in Inr (branch_init_state, next_state))
       else Inr (- 1, state))"

subsection \<open>Symbols to N and back\<close>

definition index_alphabet :: "string list" where
  "index_alphabet =
     [''[C]'', ''[Ring1]'', ''[Ring2]'',
      ''[Branch1_1]'', ''[Branch1_2]'', ''[Branch1_3]'',
      ''[Branch2_1]'', ''[Branch2_2]'', ''[Branch2_3]'',
      ''[O]'', ''[N]'', ''[=N]'', ''[=C]'', ''[#C]'', ''[S]'', ''[P]'']"

text \<open>\<open>{c: i for i, c in enumerate(_index_alphabet)}\<close>.\<close>

definition alphabet_code :: "(string \<times> int) list" where
  "alphabet_code = zip index_alphabet (map int [0 ..< length index_alphabet])"

text \<open>
  \<open>get_n_from_symbols\<close>: the sum over \<open>enumerate(reversed(symbols))\<close>; the first
  argument of the loop is the exponent \<open>i\<close>.
\<close>

fun n_from_reversed :: "nat \<Rightarrow> string list \<Rightarrow> int" where
  "n_from_reversed i [] = 0"
| "n_from_reversed i (c # cs) =
     (case map_of alphabet_code c of None \<Rightarrow> 0 | Some v \<Rightarrow> v)
       * int (length alphabet_code) ^ i
     + n_from_reversed (Suc i) cs"

definition get_n_from_symbols :: "string list \<Rightarrow> int" where
  "get_n_from_symbols symbols = n_from_reversed 0 (rev symbols)"

text \<open>
  \<open>get_symbols_from_n\<close>: the loop \<open>while n: symbols.append(...); n //= base\<close> does
  not end for a negative \<open>n\<close> (floor division stays at \<open>-1\<close>), so it is a partial
  function and \<open>None\<close> is the run that never returns. \<open>n % base\<close> is never negative.
\<close>

partial_function (option) symbols_loop :: "int \<Rightarrow> string list \<Rightarrow> string list option" where
  "symbols_loop n symbols =
     (if n \<noteq> 0
      then symbols_loop (n div int (length index_alphabet))
             (symbols @ [index_alphabet ! nat (n mod int (length index_alphabet))])
      else Some symbols)"

declare symbols_loop.simps [code]

definition get_symbols_from_n :: "int \<Rightarrow> string list option" where
  "get_symbols_from_n n =
     (if n = 0 then Some [index_alphabet ! 0]
      else map_option rev (symbols_loop n []))"

subsection \<open>The symbol stream\<close>

text \<open>
  \<open>_parse_selfies\<close> and \<open>_parse_selfies_symbols\<close> are generators. A generator is
  modelled by what it will yield: the symbols still to come, and what happens after the
  last of them, either the empty string for ever or the \<open>ValueError\<close> of a malformed
  string. The generators have no effect besides yielding, so computing the symbols ahead
  of the consumer changes nothing; the error is still met only by the \<open>next\<close> that
  reaches it.
\<close>

datatype gen = Gen (pending: "string list") (malformed: bool)

text \<open>\<open>next(selfies_gen)\<close>.\<close>

fun gen_next :: "gen \<Rightarrow> error + (string \<times> gen)" where
  "gen_next (Gen [] raises) = (if raises then Inl ValueError else Inr ('''', Gen [] raises))"
| "gen_next (Gen (s # ss) raises) = Inr (s, Gen ss raises)"

text \<open>\<open>for _ in range(n): xs.append(next(selfies_gen))\<close>.\<close>

fun gen_take :: "nat \<Rightarrow> gen \<Rightarrow> error + (string list \<times> gen)" where
  "gen_take 0 g = Inr ([], g)"
| "gen_take (Suc n) g =
     bindE (gen_next g) (\<lambda>(s, g').
     bindE (gen_take n g') (\<lambda>(ss, g''). Inr (s # ss, g'')))"

lemma find_char_bound: "find_char c s = Some k \<Longrightarrow> k < length s"
  by (induction s arbitrary: k) (auto split: if_splits)

lemma py_find_range:
  "py_find s c start = - 1 \<or> (int start \<le> py_find s c start \<and> py_find s c start < int (length s))"
  by (auto simp: py_find_def split: option.splits dest!: find_char_bound)

text \<open>
  The loop of \<open>_parse_selfies\<close> from \<open>left_idx\<close> on: the symbols it yields, and
  whether it ends by raising.
\<close>

function parse_selfies_loop :: "string \<Rightarrow> int \<Rightarrow> string list \<times> bool" where
  "parse_selfies_loop selfies left_idx =
     (if 0 \<le> left_idx \<and> left_idx < int (length selfies) then
        (let right_idx = py_find selfies CHR '']'' (nat (left_idx + 1)) in
         if selfies ! nat left_idx \<noteq> CHR ''['' \<or> right_idx = - 1 then ([], True)
         else
           let next_symbol = py_slice selfies (nat left_idx) (nat (right_idx + 1));
               (symbols, raises) = parse_selfies_loop selfies (right_idx + 1)
           in (if next_symbol \<noteq> ''[nop]'' then next_symbol # symbols else symbols, raises))
      else ([], False))"
  by pat_completeness auto
termination
proof (relation "measure (\<lambda>(selfies, left_idx). nat (int (length selfies) - left_idx))")
  show "wf (measure (\<lambda>(selfies, left_idx). nat (int (length selfies) - left_idx)))"
    by simp
next
  fix selfies :: string and left_idx right_idx :: int
  assume a: "0 \<le> left_idx \<and> left_idx < int (length selfies)"
    and r: "right_idx = py_find selfies CHR '']'' (nat (left_idx + 1))"
    and n: "\<not> (selfies ! nat left_idx \<noteq> CHR ''['' \<or> right_idx = - 1)"
  from py_find_range [of selfies "CHR '']''" "nat (left_idx + 1)"] r n a
  have "left_idx + 1 \<le> right_idx" by auto
  with a show "((selfies, right_idx + 1), (selfies, left_idx))
      \<in> measure (\<lambda>(selfies, left_idx). nat (int (length selfies) - left_idx))"
    by simp
qed

definition parse_selfies :: "string \<Rightarrow> gen" where
  "parse_selfies selfies =
     (let left_idx = py_find selfies CHR ''['' 0;
          (symbols, raises) = parse_selfies_loop selfies left_idx
      in Gen symbols raises)"

definition parse_selfies_symbols :: "string list \<Rightarrow> gen" where
  "parse_selfies_symbols selfies_symbols =
     Gen (filter (\<lambda>symbol. symbol \<noteq> ''[nop]'') selfies_symbols) False"

subsection \<open>The derivation\<close>

text \<open>
  A derived atom is the list \<open>[symbol, available bonds, index of the previous atom]\<close>;
  a ring is the tuple \<open>(left_idx, right_idx, bond_symbol)\<close>. \<open>branches\<close> and
  \<open>ring_locs\<close> are dictionaries in insertion order.
\<close>

type_synonym atom = "string \<times> int \<times> int"
type_synonym ring = "int \<times> int \<times> string"

text \<open>\<open>xs[i] = f(xs[i])\<close>, the in-place update of one element.\<close>

definition py_update :: "'a list \<Rightarrow> int \<Rightarrow> ('a \<Rightarrow> 'a) \<Rightarrow> error + 'a list" where
  "py_update xs i f =
     (case py_pos (length xs) i of
        None \<Rightarrow> Inl IndexError
      | Some j \<Rightarrow> Inr (xs[j := f (xs ! j)]))"

text \<open>
  \<open>while branch_start in branches: branch_start = branches[branch_start] + 1\<close>. The
  loop need not end for an arbitrary dictionary; \<open>None\<close> is the run that never returns.
\<close>

partial_function (option) branch_start_loop :: "(int \<times> int) list \<Rightarrow> int \<Rightarrow> int option" where
  "branch_start_loop branches branch_start =
     (case map_of branches branch_start of
        None \<Rightarrow> Some branch_start
      | Some branch_end \<Rightarrow> branch_start_loop branches (branch_end + 1))"

declare branch_start_loop.simps [code]

text \<open>\<open>int(curr_symbol[-4])\<close>: the \<open>L\<close> of \<open>[BranchL_X]\<close> (line 644).\<close>

definition branch_L :: "string \<Rightarrow> error + int" where
  "branch_L curr_symbol = bindE (py_index curr_symbol (- 4)) int_of_char"

text \<open>Case 2 of the loop, a ring symbol (lines 673 to 693).\<close>

definition derive_ring ::
  "string \<Rightarrow> int \<Rightarrow> gen \<Rightarrow> int \<Rightarrow> ring list \<Rightarrow> error + (int \<times> gen \<times> ring list)" where
  "derive_ring curr_symbol state g prev_idx rings =
     (let new_state = state in
      if state = 0 then Inr (new_state, g, rings)
      else
        bindE (bindE (py_index curr_symbol (- 2)) int_of_char) (\<lambda>L.
        bindE (gen_take (nat L) g) (\<lambda>(L_symbols, g).
        let N = get_n_from_symbols L_symbols;
            left_idx = max 0 (prev_idx - (N + 1));
            right_idx = prev_idx in
        bindE (if py_slice curr_symbol 1 5 = ''Expl''
               then bindE (py_index curr_symbol 5) (\<lambda>c. Inr [c])
               else Inr '''') (\<lambda>bond_symbol.
        Inr (new_state, g, rings @ [(left_idx, right_idx, bond_symbol)])))))"

text \<open>Case 3 of the loop, a regular symbol (lines 697 to 706).\<close>

definition derive_atom ::
  "table \<Rightarrow> string \<Rightarrow> int \<Rightarrow> atom list \<Rightarrow> int \<Rightarrow> error + (int \<times> atom list \<times> int)" where
  "derive_atom bc curr_symbol state derived prev_idx =
     bindE (get_next_state bc curr_symbol state) (\<lambda>(new_symbol, new_state).
       if new_symbol \<noteq> '''' then
         (let derived = derived @ [(new_symbol, new_state, prev_idx)] in
          bindE (if prev_idx \<ge> 0
                 then (let bond_num = get_num_from_bond [hd new_symbol] in
                       py_update derived prev_idx (\<lambda>(s, cap, par). (s, cap - bond_num, par)))
                 else Inr derived) (\<lambda>derived.
          Inr (new_state, derived, int (length derived) - 1)))
       else Inr (new_state, derived, prev_idx))"


text \<open>The recursion of the loop runs under \<open>bindE\<close>: its calls are made only on a result.\<close>

lemma bindE_cong [fundef_cong]:
  "m = m' \<Longrightarrow> (\<And>x. m' = Inr x \<Longrightarrow> f x = f' x) \<Longrightarrow> bindE m f = bindE m' f'"
  by (simp add: bindE_def split: sum.splits)


text \<open>The measure of the loop: the non-empty symbols a generator still holds.\<close>

definition gen_size :: "gen \<Rightarrow> nat" where
  "gen_size g = length (filter (\<lambda>s. s \<noteq> []) (pending g))"

lemma bindE_eq_Inr: "bindE m f = Inr y \<longleftrightarrow> (\<exists>x. m = Inr x \<and> f x = Inr y)"
  by (cases m) (simp_all add: bindE_def)

lemma gen_next_size:
  "gen_next g = Inr (s, g') \<Longrightarrow> gen_size g' + (if s \<noteq> [] then 1 else 0) \<le> gen_size g"
  by (cases g rule: gen_next.cases) (auto simp: gen_size_def split: if_splits)

lemma gen_take_size:
  "gen_take n g = Inr (ss, g') \<Longrightarrow> length (filter (\<lambda>s. s \<noteq> []) ss) + gen_size g' \<le> gen_size g"
proof (induction n arbitrary: g ss g')
  case 0
  then show ?case by simp
next
  case (Suc n)
  from Suc.prems obtain s g1 ss1 where
    a: "gen_next g = Inr (s, g1)" and b: "gen_take n g1 = Inr (ss1, g')" and c: "ss = s # ss1"
    by (auto simp: bindE_eq_Inr)
  from Suc.IH [OF b] gen_next_size [OF a] c show ?case by auto
qed

lemma parse_selfies_symbols_size:
  "gen_size (parse_selfies_symbols xs) \<le> length (filter (\<lambda>s. s \<noteq> []) xs)"
  by (induction xs) (auto simp: gen_size_def parse_selfies_symbols_def)

lemma derive_ring_size:
  "derive_ring curr_symbol state g prev_idx rings = Inr (new_state, g', rings')
   \<Longrightarrow> gen_size g' \<le> gen_size g"
  by (auto simp: derive_ring_def Let_def bindE_eq_Inr split: if_splits dest!: gen_take_size)

text \<open>
  The \<open>while\<close> loop of \<open>_translate_selfies_derive\<close>. The lists \<open>derived\<close>,
  \<open>branches\<close> and \<open>rings\<close> are changed in place by the source and returned here.
  Each round computes \<open>new_state\<close> and the changed variables in one of the three
  cases, then takes the next symbol (lines 708 and 709).
\<close>

function translate_selfies_derive_loop ::
  "table \<Rightarrow> string \<Rightarrow> int \<Rightarrow> gen \<Rightarrow> atom list \<Rightarrow> int \<Rightarrow> (int \<times> int) list \<Rightarrow> ring list
   \<Rightarrow> error + (atom list \<times> (int \<times> int) list \<times> ring list)" where
  "translate_selfies_derive_loop bc curr_symbol state g derived prev_idx branches rings =
     (if curr_symbol \<noteq> '''' \<and> state \<ge> 0 then
        bindE
          (if contains ''Branch'' curr_symbol then
             bindE (get_next_branch_state curr_symbol state) (\<lambda>(branch_init_state, new_state).
               if state \<le> 1 then Inr (new_state, g, derived, prev_idx, branches, rings)
               else
                 bindE (branch_L curr_symbol) (\<lambda>L.
                 bindE (gen_take (nat L) g) (\<lambda>(L_symbols, g).
                 let N = get_n_from_symbols L_symbols in
                 bindE (gen_take (nat (N + 1)) g) (\<lambda>(branch_symbols, g).
                 let branch_gen = parse_selfies_symbols branch_symbols;
                     branch_start = int (length derived) in
                 bindE (gen_next branch_gen) (\<lambda>(branch_symbol, branch_gen).
                 bindE (translate_selfies_derive_loop bc branch_symbol branch_init_state
                          branch_gen derived prev_idx branches rings)
                   (\<lambda>(derived, branches, rings).
                 let branch_end = int (length derived) - 1 in
                 case branch_start_loop branches branch_start of
                   None \<Rightarrow> Inl Diverges
                 | Some branch_start \<Rightarrow>
                     Inr (new_state, g, derived, prev_idx,
                          if branch_start \<le> branch_end
                          then dict_set branches branch_start branch_end else branches,
                          rings)))))))
           else if contains ''Ring'' curr_symbol then
             bindE (derive_ring curr_symbol state g prev_idx rings) (\<lambda>(new_state, g, rings).
               Inr (new_state, g, derived, prev_idx, branches, rings))
           else
             bindE (derive_atom bc curr_symbol state derived prev_idx)
               (\<lambda>(new_state, derived, prev_idx).
               Inr (new_state, g, derived, prev_idx, branches, rings)))
          (\<lambda>(new_state, g, derived, prev_idx, branches, rings).
             bindE (gen_next g) (\<lambda>(curr_symbol, g).
             translate_selfies_derive_loop bc curr_symbol new_state g derived prev_idx
               branches rings))
      else Inr (derived, branches, rings))"
  by pat_completeness auto
termination
proof (relation "measure (\<lambda>(bc, curr_symbol, state, g, derived, prev_idx, branches, rings).
            gen_size g + (if curr_symbol \<noteq> [] then 1 else 0))", goal_cases)
  case 1
  show ?case by simp
next
  case (2 bc curr_symbol state g derived prev_idx branches rings x xa y xb xc xd
        ya xe xf xg yaa xh xi xj xk yab)
  from 2 have "gen_size ya \<le> gen_size g"
    using gen_take_size [of "nat xb" g xd ya] by simp
  moreover from 2 have "length (filter (\<lambda>s. s \<noteq> []) xg) \<le> gen_size ya"
    using gen_take_size [of "nat (xe + 1)" ya xg yaa] by simp
  moreover from 2 have "gen_size yab + (if xk \<noteq> [] then 1 else 0) \<le> gen_size xh"
    using gen_next_size [of xh xk yab] by simp
  moreover from 2 have "gen_size xh \<le> length (filter (\<lambda>s. s \<noteq> []) xg)"
    using parse_selfies_symbols_size [of xg] by simp
  ultimately show ?case using 2(1) by simp
next
  case (3 bc curr_symbol state g derived prev_idx branches rings x xa y xb ya xc
        yb xd yc xe yd xf xg ye)
  from 3(2-7) have "gen_size xb \<le> gen_size g"
    by (auto simp: bindE_eq_Inr Let_def split: if_splits option.splits
             dest!: gen_take_size derive_ring_size)
  moreover from 3 have "gen_size ye + (if xg \<noteq> [] then 1 else 0) \<le> gen_size xb"
    using gen_next_size [of xb xg ye] by simp
  ultimately show ?case using 3(1) by simp
qed

text \<open>
  \<open>_translate_selfies_derive\<close>: the first \<open>next\<close>, then the loop. In the loop, the
  recursive call for a branch is written with its own first \<open>next\<close> in place.
\<close>

definition translate_selfies_derive ::
  "table \<Rightarrow> gen \<Rightarrow> int \<Rightarrow> atom list \<Rightarrow> int \<Rightarrow> (int \<times> int) list \<Rightarrow> ring list
   \<Rightarrow> error + (atom list \<times> (int \<times> int) list \<times> ring list)" where
  "translate_selfies_derive bc selfies_gen init_state derived prev_idx branches rings =
     bindE (gen_next selfies_gen) (\<lambda>(curr_symbol, g).
     translate_selfies_derive_loop bc curr_symbol init_state g derived prev_idx branches rings)"

subsection \<open>Rings\<close>

text \<open>
  One round of the first loop of \<open>_form_rings_bilocally\<close>. \<open>left_end\<close> and
  \<open>right_end\<close> are the atoms \<open>derived[left_idx]\<close> and \<open>derived[right_idx]\<close>
  themselves, so a write to them is a write into \<open>derived\<close>, and it reads the value
  the atom has at that moment.
\<close>

definition resolve_ring ::
  "ring \<Rightarrow> atom list \<Rightarrow> ((int \<times> int) \<times> string) list
   \<Rightarrow> error + (atom list \<times> ((int \<times> int) \<times> string) list)" where
  "resolve_ring ring derived ring_locs =
     (case ring of (left_idx, right_idx, bond_symbol) \<Rightarrow>
      if left_idx = right_idx then Inr (derived, ring_locs)
      else
        bindE (py_index derived left_idx) (\<lambda>(left_symbol, left_bonds, left_prev).
        bindE (py_index derived right_idx) (\<lambda>(right_symbol, right_bonds, right_prev).
        let bond_num = get_num_from_bond bond_symbol in
        if left_bonds \<le> 0 \<or> right_bonds \<le> 0 then Inr (derived, ring_locs)
        else
          bindE (if bond_num > min left_bonds right_bonds
                 then bindE (get_bond_from_num (min left_bonds right_bonds))
                        (\<lambda>b. Inr (min left_bonds right_bonds, b))
                 else Inr (bond_num, bond_symbol)) (\<lambda>(bond_num, bond_symbol).
          bindE (if left_idx = right_prev then
                   bindE (py_index right_symbol 0) (\<lambda>c.
                   let old_bond =
                         (if c \<in> {CHR ''-'', CHR ''/'', CHR 0x5C, CHR ''='', CHR ''#''}
                          then [c] else '''');
                       new_bond_num = min (bond_num + get_num_from_bond old_bond) 3 in
                   bindE (get_bond_from_num new_bond_num) (\<lambda>new_bond_symbol.
                   bindE (py_update derived right_idx
                            (\<lambda>(s, bonds, prev).
                               (new_bond_symbol @ drop (length old_bond) s, bonds, prev)))
                     (\<lambda>derived. Inr (derived, ring_locs))))
                 else
                   (let loc = (left_idx, right_idx) in
                    case map_of ring_locs loc of
                      Some old \<Rightarrow>
                        (let new_bond_num = min (bond_num + get_num_from_bond old) 3 in
                         bindE (get_bond_from_num new_bond_num) (\<lambda>new_bond_symbol.
                         Inr (derived, dict_set ring_locs loc new_bond_symbol)))
                    | None \<Rightarrow> Inr (derived, dict_set ring_locs loc bond_symbol)))
            (\<lambda>(derived, ring_locs).
          bindE (py_update derived left_idx (\<lambda>(s, bonds, prev). (s, bonds - bond_num, prev)))
            (\<lambda>derived.
          bindE (py_update derived right_idx (\<lambda>(s, bonds, prev). (s, bonds - bond_num, prev)))
            (\<lambda>derived.
          Inr (derived, ring_locs))))))))"

fun resolve_rings ::
  "ring list \<Rightarrow> atom list \<Rightarrow> ((int \<times> int) \<times> string) list
   \<Rightarrow> error + (atom list \<times> ((int \<times> int) \<times> string) list)" where
  "resolve_rings [] derived ring_locs = Inr (derived, ring_locs)"
| "resolve_rings (ring # rings) derived ring_locs =
     bindE (resolve_ring ring derived ring_locs) (\<lambda>(derived, ring_locs).
     resolve_rings rings derived ring_locs)"

text \<open>The second loop: the ring numbers are written into \<open>derived\<close>.\<close>

fun add_rings ::
  "((int \<times> int) \<times> string) list \<Rightarrow> nat \<Rightarrow> atom list \<Rightarrow> error + atom list" where
  "add_rings [] ring_counter derived = Inr derived"
| "add_rings (((left_idx, right_idx), bond_symbol) # ring_locs) ring_counter derived =
     (let ring_id = str_nat ring_counter;
          ring_id = (if length ring_id = 2 then ''%'' @ ring_id else ring_id) in
      bindE (py_update derived left_idx
               (\<lambda>(s, bonds, prev). (s @ bond_symbol @ ring_id, bonds, prev))) (\<lambda>derived.
      bindE (py_update derived right_idx
               (\<lambda>(s, bonds, prev). (s @ bond_symbol @ ring_id, bonds, prev))) (\<lambda>derived.
      add_rings ring_locs (ring_counter + 1) derived)))"

definition form_rings_bilocally :: "atom list \<Rightarrow> ring list \<Rightarrow> error + atom list" where
  "form_rings_bilocally derived rings =
     bindE (resolve_rings rings derived []) (\<lambda>(derived, ring_locs).
     add_rings ring_locs 1 derived)"

subsection \<open>Translating one fragment\<close>

text \<open>\<open>for lb, rb in branches.items(): ...\<close>, the parentheses of the branches.\<close>

fun add_branches :: "(int \<times> int) list \<Rightarrow> atom list \<Rightarrow> error + atom list" where
  "add_branches [] derived = Inr derived"
| "add_branches ((lb, rb) # branches) derived =
     bindE (py_update derived lb (\<lambda>(s, bonds, prev). (''('' @ s, bonds, prev))) (\<lambda>derived.
     bindE (py_update derived rb (\<lambda>(s, bonds, prev). (s @ '')'', bonds, prev))) (\<lambda>derived.
     add_branches branches derived))"

definition translate_selfies :: "table \<Rightarrow> string \<Rightarrow> error + string" where
  "translate_selfies bc selfies =
     (let selfies_gen = parse_selfies selfies in
      bindE (translate_selfies_derive bc selfies_gen 0 [] (- 1) [] [])
        (\<lambda>(derived, branches, rings).
      bindE (form_rings_bilocally derived rings) (\<lambda>derived.
      bindE (add_branches branches derived) (\<lambda>derived.
      Inr (concat (map fst derived))))))"

subsection \<open>The decoder\<close>

text \<open>The loop over the fragments (lines 494 to 498).\<close>

fun translate_fragments :: "table \<Rightarrow> string list \<Rightarrow> string list \<Rightarrow> error + string list" where
  "translate_fragments bc [] all_smiles = Inr all_smiles"
| "translate_fragments bc (s # ss) all_smiles =
     bindE (translate_selfies bc s) (\<lambda>smiles.
     translate_fragments bc ss (if smiles \<noteq> '''' then all_smiles @ [smiles] else all_smiles))"

text \<open>\<open>if constraints is not None: set_semantic_constraints(old_constraints)\<close>.\<close>

definition restore_constraints ::
  "string option \<Rightarrow> nat \<Rightarrow> registry \<Rightarrow> error option \<times> registry" where
  "restore_constraints constraints old_constraints reg =
     (if constraints \<noteq> None then set_semantic_constraints (Some old_constraints) reg
      else (None, reg))"

text \<open>
  The result of \<open>decoder\<close> is \<open>Inr (Some smiles)\<close>, or \<open>Inr None\<close> when it returns
  \<open>None\<close>, or \<open>Inl e\<close> when the exception \<open>e\<close> leaves it; the registry comes back
  as the call leaves it. \<open>print_error\<close> only prints and is left out.

  \<open>decoder_try\<close> is the body of the \<open>try\<close> statement (lines 492 to 503).
\<close>

definition decoder_try ::
  "string \<Rightarrow> string option \<Rightarrow> nat \<Rightarrow> registry \<Rightarrow> (error + string option) \<times> registry" where
  "decoder_try selfies constraints old_constraints reg =
     (case translate_fragments (active_table reg) (split_dot selfies) [] of
        Inl e \<Rightarrow> (Inl e, reg)
      | Inr all_smiles \<Rightarrow>
          (case restore_constraints constraints old_constraints reg of
             (Some e, reg') \<Rightarrow> (Inl e, reg')
           | (None, reg') \<Rightarrow> (Inr (Some (join_dot all_smiles)), reg')))"

definition decoder ::
  "string \<Rightarrow> string option \<Rightarrow> registry \<Rightarrow> (error + string option) \<times> registry" where
  "decoder selfies constraints reg =
     (let (old_constraints, reg) = get_semantic_constraints reg;
          (raised, reg) =
            (case constraints of
               None \<Rightarrow> (None, reg)
             | Some name \<Rightarrow>
                 if name = ''octet_rule''
                 then (let (a, reg) = get_octet_rule_constraints reg
                       in set_semantic_constraints (Some a) reg)
                 else if name = ''hypervalent''
                 then (let (a, reg) = get_hypervalent_constraints reg
                       in set_semantic_constraints (Some a) reg)
                 else (Some ValueError, reg))
      in case raised of
           Some e \<Rightarrow> (Inl e, reg)
         | None \<Rightarrow>
             (case decoder_try selfies constraints old_constraints reg of
                (Inl ValueError, reg) \<Rightarrow>
                  (case restore_constraints constraints old_constraints reg of
                     (Some e, reg') \<Rightarrow> (Inl e, reg')
                   | (None, reg') \<Rightarrow> (Inr None, reg'))
              | result \<Rightarrow> result))"

section \<open>Properties\<close>

lemma bindE_simps [simp]:
  "bindE (Inl e) f = Inl e"
  "bindE (Inr x) f = f x"
  by (simp_all add: bindE_def)

subsection \<open>Concrete decodings\<close>

text \<open>
  C1. With the module as imported (the default table active) and no override,
  \<open>decoder('[C][=C][F]')\<close> returns the SMILES \<open>C=CF\<close>.
\<close>

theorem decoder_example_C_eq_CF:
  "fst (decoder ''[C][=C][F]'' None init_registry) = Inr (Some ''C=CF'')"
  by code_simp

lemma decoder_ring1_eval:
  "fst (decoder ''[C][C][Ring1]'' None init_registry) = Inr (Some ''C=C'')"
  by code_simp

text \<open>
  C2, as stated, fails: \<open>decoder('[C][C][Ring1]')\<close> does not return \<open>C1CC1\<close>.
\<close>

theorem decoder_ring1_not_three_ring:
  "fst (decoder ''[C][C][Ring1]'' None init_registry) \<noteq> Inr (Some ''C1CC1'')"
  using decoder_ring1_eval by simp

text \<open>
  C2, amended. \<open>decoder('[C][C][Ring1]')\<close> returns \<open>C=C\<close>: the ring symbol reads its
  length from the exhausted stream, so the ring joins the second atom to the atom it is
  already bonded to, and the bond between them becomes a double bond; no ring number is
  written. The three-membered ring \<open>C1CC1\<close> is the decoding of
  \<open>[C][C][C][Ring1][Ring1]\<close>.
\<close>

theorem decoder_ring1_double_bond:
  "fst (decoder ''[C][C][Ring1]'' None init_registry) = Inr (Some ''C=C'')
   \<and> fst (decoder ''[C][C][C][Ring1][Ring1]'' None init_registry) = Inr (Some ''C1CC1'')"
  by (rule conjI, rule decoder_ring1_eval) code_simp

text \<open>
  C9. On the input \<open>[]\<close> the \<open>IndexError\<close> of \<open>parse_atom_symbol\<close> leaves
  \<open>decoder\<close>: the \<open>except\<close> clause catches \<open>ValueError\<close> only, so the call does not
  return \<open>None\<close>.
\<close>

theorem decoder_index_error_escapes:
  "fst (decoder ''[]'' None init_registry) = Inl IndexError
   \<and> fst (decoder ''[]'' None init_registry) \<noteq> Inr None"
  by code_simp

text \<open>
  C4 at the input \<open>decoder('[]', constraints='octet_rule')\<close>, called on the module as
  imported: the \<open>IndexError\<close> leaves the \<open>try\<close> statement past both restoring
  statements, and the active table is left as the octet-rule preset, not the default
  table that was active before the call.
\<close>

theorem decoder_override_not_restored:
  "fst (decoder ''[]'' (Some ''octet_rule'') init_registry) = Inl IndexError
   \<and> active_table (snd (decoder ''[]'' (Some ''octet_rule'') init_registry))
       = octet_rule_bond_constraints
   \<and> active_table init_registry = default_bond_constraints
   \<and> octet_rule_bond_constraints \<noteq> default_bond_constraints"
  by code_simp

text \<open>
  The two ways out of \<open>decoder\<close> that the source provides for do restore the table:
  when a call with a preset name returns, with a SMILES or with \<open>None\<close>, the active
  table has the items it had before the call. The registry is taken with its three presets
  in place and valid, and a valid active table, as \<open>set_semantic_constraints\<close> leaves it.
\<close>

lemma set_semantic_constraints_valid:
  "valid_table (heap reg ! a) \<Longrightarrow>
   set_semantic_constraints (Some a) reg
     = (None, \<lparr>heap = heap reg @ [heap reg ! a], bond_constraints = length (heap reg)\<rparr>)"
  by (simp add: set_semantic_constraints_def valid_table_def dict_copy_def)

lemma decoder_restores_when_it_returns:
  assumes addr: "bond_constraints reg < length (heap reg)" "2 < length (heap reg)"
    and act: "valid_table (active_table reg)"
    and pre: "valid_table (heap reg ! octet_rule_addr)" "valid_table (heap reg ! hypervalent_addr)"
    and name: "name = ''octet_rule'' \<or> name = ''hypervalent''"
    and ret: "fst (decoder selfies (Some name) reg) = Inr r"
  shows "active_table (snd (decoder selfies (Some name) reg)) = active_table reg"
proof -
  define a where "a = (if name = ''octet_rule'' then octet_rule_addr else hypervalent_addr)"
  define h1 where "h1 = heap reg @ [active_table reg]"
  define h2 where "h2 = h1 @ [heap reg ! a]"
  define reg3 where "reg3 = \<lparr>heap = h2 @ [heap reg ! a], bond_constraints = Suc (Suc (length (heap reg)))\<rparr>"
  have a_lt: "a < length (heap reg)"
    using addr by (simp add: a_def octet_rule_addr_def hypervalent_addr_def)
  have va: "valid_table (heap reg ! a)" using pre by (simp add: a_def)
  have old: "heap reg3 ! length (heap reg) = active_table reg"
    by (simp add: reg3_def h2_def h1_def nth_append)
  have restore: "restore_constraints (Some name) (length (heap reg)) reg3
      = (None, \<lparr>heap = heap reg3 @ [active_table reg], bond_constraints = length (heap reg3)\<rparr>)"
    using act old by (simp add: restore_constraints_def set_semantic_constraints_valid)
  have get: "get_semantic_constraints reg = (length (heap reg), reg\<lparr>heap := h1\<rparr>)"
    by (simp add: get_semantic_constraints_def dict_copy_def h1_def active_table_def)
  have h1a: "h1 ! a = heap reg ! a" using a_lt by (simp add: h1_def nth_append)
  have copy: "dict_copy a (reg\<lparr>heap := h1\<rparr>) = (length h1, reg\<lparr>heap := h2\<rparr>)"
    by (simp add: dict_copy_def h2_def h1a)
  have h2a: "h2 ! length h1 = heap reg ! a" by (simp add: h2_def)
  have inst: "set_semantic_constraints (Some (length h1)) (reg\<lparr>heap := h2\<rparr>) = (None, reg3)"
    using va set_semantic_constraints_valid [of "reg\<lparr>heap := h2\<rparr>" "length h1"]
    by (simp add: h2a reg3_def h2_def h1_def nth_append)
  have over: "(if name = ''octet_rule''
               then (let (a, r) = get_octet_rule_constraints (reg\<lparr>heap := h1\<rparr>)
                     in set_semantic_constraints (Some a) r)
               else if name = ''hypervalent''
               then (let (a, r) = get_hypervalent_constraints (reg\<lparr>heap := h1\<rparr>)
                     in set_semantic_constraints (Some a) r)
               else (Some ValueError, reg\<lparr>heap := h1\<rparr>)) = (None, reg3)"
    using name copy inst
    by (auto simp: get_octet_rule_constraints_def get_hypervalent_constraints_def a_def)
  define reg4 where
    "reg4 = \<lparr>heap = heap reg3 @ [active_table reg], bond_constraints = length (heap reg3)\<rparr>"
  have same_table: "active_table reg4 = active_table reg"
    by (simp add: reg4_def active_table_def)
  note restore' = restore [folded reg4_def]
  show ?thesis
  proof (cases "translate_fragments (active_table reg3) (split_dot selfies) []")
    case (Inr all_smiles)
    then have t: "decoder_try selfies (Some name) (length (heap reg)) reg3
        = (Inr (Some (join_dot all_smiles)), reg4)"
      by (simp add: decoder_try_def restore')
    have "decoder selfies (Some name) reg = (Inr (Some (join_dot all_smiles)), reg4)"
      using over t unfolding decoder_def get by (simp add: Let_def)
    with same_table show ?thesis by simp
  next
    case (Inl e)
    then have t: "decoder_try selfies (Some name) (length (heap reg)) reg3 = (Inl e, reg3)"
      by (simp add: decoder_try_def)
    show ?thesis
    proof (cases "e = ValueError")
      case True
      have "decoder selfies (Some name) reg = (Inr None, reg4)"
        using over t True restore' unfolding decoder_def get by (simp add: Let_def)
      with same_table show ?thesis by simp
    next
      case False
      have "decoder selfies (Some name) reg = (Inl e, reg3)"
        using over t False unfolding decoder_def get by (cases e) (simp_all add: Let_def)
      with ret show ?thesis by simp
    qed
  qed
qed

subsection \<open>The branch state\<close>

text \<open>
  C3, as stated, fails: for \<open>[Branch1_3]\<close> the number of symbols that encode the
  branch length is \<open>L = 1\<close>, and at state 5 the result is \<open>(3, 2)\<close>, not
  \<open>(min(5 - 1, 1), 5 - min(5 - 1, 1))\<close>.
\<close>

theorem branch_state_not_by_level:
  "branch_L ''[Branch1_3]'' = Inr 1
   \<and> get_next_branch_state ''[Branch1_3]'' 5 = Inr (3, 2)
   \<and> get_next_branch_state ''[Branch1_3]'' 5 \<noteq> Inr (min (5 - 1) 1, 5 - min (5 - 1) 1)"
  by code_simp

text \<open>
  C3, amended. \<open>get_next_branch_state\<close> works with the digit \<open>X\<close> that stands second
  to last in the symbol, the \<open>X\<close> of \<open>[BranchL_X]\<close>, not with \<open>L\<close>. When \<open>X\<close>
  is in \<open>[1, 3]\<close>: for \<open>2 \<le> state \<le> 8\<close> it returns the branch state
  \<open>min(state - 1, X)\<close> and the next state \<open>state - min(state - 1, X)\<close>, and for any
  other state it returns \<open>(-1, state)\<close>. It raises \<open>ValueError\<close> exactly when \<open>X\<close>
  is outside \<open>[1, 3]\<close>, and whatever reading \<open>X\<close> raises when that fails.
\<close>

theorem get_next_branch_state_by_type:
  "(branch_type branch_symbol = Inr X \<and> 1 \<le> X \<and> X \<le> 3 \<and> 2 \<le> state \<and> state \<le> 8
      \<longrightarrow> get_next_branch_state branch_symbol state
            = Inr (min (state - 1) X, state - min (state - 1) X))
   \<and> (branch_type branch_symbol = Inr X \<and> 1 \<le> X \<and> X \<le> 3 \<and> \<not> (2 \<le> state \<and> state \<le> 8)
      \<longrightarrow> get_next_branch_state branch_symbol state = Inr (- 1, state))
   \<and> (branch_type branch_symbol = Inr X
      \<longrightarrow> (get_next_branch_state branch_symbol state = Inl ValueError \<longleftrightarrow> \<not> (1 \<le> X \<and> X \<le> 3)))
   \<and> (branch_type branch_symbol = Inl e \<longrightarrow> get_next_branch_state branch_symbol state = Inl e)"
  by (auto simp: get_next_branch_state_def Let_def)

text \<open>
  C3, amended, at \<open>[Branch1_3]\<close> in the states 5 and 1, and at \<open>[Branch1_4]\<close>.
\<close>

theorem get_next_branch_state_by_type_witness:
  "branch_type ''[Branch1_3]'' = Inr 3
   \<and> get_next_branch_state ''[Branch1_3]'' 5 = Inr (3, 2)
   \<and> get_next_branch_state ''[Branch1_3]'' 1 = Inr (- 1, 1)
   \<and> branch_type ''[Branch1_4]'' = Inr 4
   \<and> get_next_branch_state ''[Branch1_4]'' 5 = Inl ValueError"
proof -
  have a: "branch_type ''[Branch1_3]'' = Inr 3" by code_simp
  have b: "branch_type ''[Branch1_4]'' = Inr 4" by code_simp
  from a b get_next_branch_state_by_type [of "''[Branch1_3]''" 3 5]
    get_next_branch_state_by_type [of "''[Branch1_3]''" 3 1]
    get_next_branch_state_by_type [of "''[Branch1_4]''" 4 5]
  show ?thesis by simp
qed


subsection \<open>The constraint registry\<close>

lemma values_in_range_iff:
  "values_in_range t \<longleftrightarrow> \<not> (\<exists>(key, v) \<in> set t. v < 1 \<or> 8 < v)"
  by (auto simp: values_in_range_def list_all_iff)

text \<open>
  C5. \<open>set_semantic_constraints\<close>, called with the dictionary at address \<open>a\<close>,
  raises \<open>ValueError\<close> if and only if the key \<open>?\<close> is missing or some value is
  outside \<open>[1, 8]\<close>, and otherwise raises nothing. When it raises, the registry is as
  before. When it does not, the active table has the items of the argument and is a
  dictionary of its own: it is not the caller's dictionary, which is left as it was, and a
  later write into the caller's dictionary does not change the active table. Called with
  \<open>None\<close>, it makes the default preset the active table.
\<close>

theorem set_semantic_constraints_validates:
  assumes "a < length (heap reg)"
  shows "(fst (set_semantic_constraints (Some a) reg) = Some ValueError
            \<longleftrightarrow> (''?'' \<notin> fst ` set (heap reg ! a)
                 \<or> (\<exists>(key, v) \<in> set (heap reg ! a). v < 1 \<or> 8 < v)))
       \<and> (fst (set_semantic_constraints (Some a) reg) = None
            \<longleftrightarrow> \<not> (''?'' \<notin> fst ` set (heap reg ! a)
                   \<or> (\<exists>(key, v) \<in> set (heap reg ! a). v < 1 \<or> 8 < v)))
       \<and> (fst (set_semantic_constraints (Some a) reg) \<noteq> None
            \<longrightarrow> snd (set_semantic_constraints (Some a) reg) = reg)
       \<and> (fst (set_semantic_constraints (Some a) reg) = None
            \<longrightarrow> active_table (snd (set_semantic_constraints (Some a) reg)) = heap reg ! a
              \<and> bond_constraints (snd (set_semantic_constraints (Some a) reg)) \<noteq> a
              \<and> heap (snd (set_semantic_constraints (Some a) reg)) ! a = heap reg ! a
              \<and> (\<forall>t'. active_table
                        ((snd (set_semantic_constraints (Some a) reg))
                           \<lparr>heap := (heap (snd (set_semantic_constraints (Some a) reg)))[a := t']\<rparr>)
                      = heap reg ! a))
       \<and> set_semantic_constraints None reg = (None, reg\<lparr>bond_constraints := default_addr\<rparr>)
       \<and> active_table (snd (set_semantic_constraints None reg)) = heap reg ! default_addr"
  using assms
  by (auto simp: set_semantic_constraints_def values_in_range_iff map_of_eq_None_iff
        dict_copy_def active_table_def nth_append split: prod.splits)

text \<open>
  C5 at the table \<open>{'?': 9}\<close>, which is refused and leaves the registry as it was, and
  at a copy of the octet-rule preset, which is installed at a fresh address.
\<close>

theorem set_semantic_constraints_validates_witness:
  "fst (set_semantic_constraints (Some 3)
          (init_registry\<lparr>heap := heap init_registry @ [[(''?'', 9)]]\<rparr>)) = Some ValueError
   \<and> snd (set_semantic_constraints (Some 3)
          (init_registry\<lparr>heap := heap init_registry @ [[(''?'', 9)]]\<rparr>))
       = init_registry\<lparr>heap := heap init_registry @ [[(''?'', 9)]]\<rparr>
   \<and> fst (set_semantic_constraints (Some 1) init_registry) = None
   \<and> active_table (snd (set_semantic_constraints (Some 1) init_registry))
       = octet_rule_bond_constraints
   \<and> bond_constraints (snd (set_semantic_constraints (Some 1) init_registry)) = 3"
proof -
  have a: "3 < length (heap (init_registry\<lparr>heap := heap init_registry @ [[(''?'', 9)]]\<rparr>))"
    by (simp add: init_registry_def)
  have b: "1 < length (heap init_registry)"
    by (simp add: init_registry_def)
  have c: "bond_constraints (snd (set_semantic_constraints (Some 1) init_registry)) = 3"
    by code_simp
  have d: "heap init_registry ! 1 = octet_rule_bond_constraints"
    by (simp add: init_registry_def)
  have e: "''?'' \<in> fst ` set octet_rule_bond_constraints"
    "\<not> (\<exists>(key, v) \<in> set octet_rule_bond_constraints. v < 1 \<or> 8 < v)"
    by (simp_all add: octet_rule_bond_constraints_def default_bond_constraints_def
          dict_update_def)
  from set_semantic_constraints_validates [OF a] set_semantic_constraints_validates [OF b]
    c d e
  show ?thesis by (simp add: init_registry_def)
qed

subsection \<open>Symbols to N and back\<close>

lemma alphabet_code_nth:
  "k < 16 \<Longrightarrow> map_of alphabet_code (index_alphabet ! k) = Some (int k)"
proof -
  assume k: "k < 16"
  have d: "distinct index_alphabet" by (simp add: index_alphabet_def)
  have l: "length index_alphabet = 16" by (simp add: index_alphabet_def)
  from k l have "map_of (zip index_alphabet (map int [0 ..< length index_alphabet]))
          (index_alphabet ! k) = Some (map int [0 ..< length index_alphabet] ! k)"
    by (intro map_of_zip_nth d) simp_all
  with k l show ?thesis by (simp add: alphabet_code_def)
qed

lemma length_alphabet_code: "int (length alphabet_code) = 16"
  by (simp add: alphabet_code_def index_alphabet_def)

lemma symbols_loop_digits:
  "0 \<le> n \<Longrightarrow> \<exists>ds. symbols_loop n acc = Some (acc @ ds) \<and> n_from_reversed i ds = n * 16 ^ i"
proof (induction "nat n" arbitrary: n acc i rule: less_induct)
  case less
  show ?case
  proof (cases "n = 0")
    case True
    then show ?thesis by (simp add: symbols_loop.simps)
  next
    case False
    with less.prems have pos: "0 < n" by simp
    let ?d = "index_alphabet ! nat (n mod 16)"
    have len: "int (length index_alphabet) = 16" by (simp add: index_alphabet_def)
    have step: "symbols_loop n acc = symbols_loop (n div 16) (acc @ [?d])"
      using False by (subst symbols_loop.simps) (simp add: len)
    from pos have q: "0 \<le> n div 16" "n div 16 < n"
      by (simp_all add: int_div_less_self)
    with pos have "nat (n div 16) < nat n" by simp
    from less.hyps [OF this q(1), of "acc @ [?d]" "Suc i"]
    obtain ds where ds: "symbols_loop (n div 16) (acc @ [?d]) = Some ((acc @ [?d]) @ ds)"
      and v: "n_from_reversed (Suc i) ds = (n div 16) * 16 ^ Suc i"
      by blast
    from pos have "nat (n mod 16) < 16" by simp
    from alphabet_code_nth [OF this] pos
    have code: "map_of alphabet_code ?d = Some (n mod 16)" by simp
    define r q where "r = n mod 16" and "q = n div 16"
    have n: "n = r + 16 * q" by (simp add: r_def q_def)
    have "n_from_reversed i (?d # ds) = r * 16 ^ i + q * 16 ^ Suc i"
      using code v by (simp add: length_alphabet_code r_def q_def)
    also have "\<dots> = n * 16 ^ i"
      unfolding n by (simp add: algebra_simps)
    finally have "n_from_reversed i (?d # ds) = n * 16 ^ i" .
    with step ds show ?thesis by auto
  qed
qed

text \<open>
  C6. For every \<open>n \<ge> 0\<close>, so for every \<open>n\<close> in \<open>[0, 16^k - 1]\<close> and in
  \<open>[0, 4095]\<close>, \<open>get_symbols_from_n(n)\<close> returns a list of symbols, and
  \<open>get_n_from_symbols\<close> of that list is \<open>n\<close> again. \<open>get_symbols_from_n(0)\<close> is the
  list of the first symbol of the alphabet alone, \<open>[C]\<close>, not the empty list.
\<close>

theorem index_codec_round_trip:
  "(0 \<le> n \<longrightarrow> (\<exists>symbols. get_symbols_from_n n = Some symbols
                             \<and> get_n_from_symbols symbols = n))
   \<and> get_symbols_from_n 0 = Some [index_alphabet ! 0]
   \<and> index_alphabet ! 0 = ''[C]''"
proof (intro conjI impI)
  assume n: "0 \<le> n"
  show "\<exists>symbols. get_symbols_from_n n = Some symbols \<and> get_n_from_symbols symbols = n"
  proof (cases "n = 0")
    case True
    have "map_of alphabet_code (index_alphabet ! 0) = Some 0"
      using alphabet_code_nth [of 0] by simp
    with True show ?thesis
      by (simp add: get_symbols_from_n_def get_n_from_symbols_def)
  next
    case False
    from symbols_loop_digits [OF n, of "[]" 0] obtain ds where
      "symbols_loop n [] = Some ds" "n_from_reversed 0 ds = n" by auto
    with False show ?thesis
      by (simp add: get_symbols_from_n_def get_n_from_symbols_def)
  qed
next
  show "get_symbols_from_n 0 = Some [index_alphabet ! 0]"
    by (simp add: get_symbols_from_n_def)
next
  show "index_alphabet ! 0 = ''[C]''" by (simp add: index_alphabet_def)
qed

text \<open>C6 at \<open>n = 4095\<close>, the largest number of three symbols.\<close>

theorem index_codec_round_trip_witness:
  "(0::int) \<le> 4095
   \<and> (\<exists>symbols. get_symbols_from_n 4095 = Some symbols \<and> get_n_from_symbols symbols = 4095)
   \<and> get_symbols_from_n 4095 = Some [''[P]'', ''[P]'', ''[P]'']"
proof -
  have "get_symbols_from_n 4095 = Some [''[P]'', ''[P]'', ''[P]'']" by code_simp
  with index_codec_round_trip [of 4095] show ?thesis by simp
qed

subsection \<open>Hydrogens\<close>

lemma get_bond_from_num_defined:
  "1 \<le> n \<Longrightarrow> n \<le> 3 \<Longrightarrow> \<exists>b. get_bond_from_num n = Inr b"
  by (auto simp: get_bond_from_num_def py_index_def py_pos_def)

lemma get_num_from_bond_range: "1 \<le> get_num_from_bond b \<and> get_num_from_bond b \<le> 3"
  by (simp add: get_num_from_bond_def)

text \<open>
  C7. Take a symbol other than \<open>[epsilon]\<close> that is well formed, that is, whose bond
  character and SMILES atom are read and whose atom is parsed without an error, into a
  hydrogen count \<open>h_count\<close>, and whose key has the bond count \<open>max_bonds\<close> in the
  active table; and take a state \<open>\<ge> 0\<close>. Then \<open>get_next_state\<close> raises
  \<open>ValueError\<close> (too many Hs) if and only if \<open>h_count > max_bonds\<close>, or
  \<open>h_count = max_bonds\<close> and \<open>state > 0\<close>; in every other case it returns a fragment
  and a next state.
\<close>

theorem get_next_state_excess_hydrogens:
  assumes "symbol \<noteq> ''[epsilon]''" and "0 \<le> state"
    and "symbol_bond symbol = Inr bond"
    and "parse_atom_symbol (symbol_smiles symbol bond) = Inr (element, h_count, charge)"
    and "lookup_max_bonds bc (atom_or_ion element charge) = Inr max_bonds"
  shows "(get_next_state bc symbol state = Inl ValueError
            \<longleftrightarrow> h_count > max_bonds \<or> (h_count = max_bonds \<and> state > 0))
       \<and> (\<not> (h_count > max_bonds \<or> (h_count = max_bonds \<and> state > 0))
            \<longrightarrow> (\<exists>fragment next_state.
                   get_next_state bc symbol state = Inr (fragment, next_state)))"
proof (cases "h_count > max_bonds \<or> (h_count = max_bonds \<and> state > 0)")
  case True
  with assms show ?thesis by (simp add: get_next_state_def Let_def)
next
  case False
  show ?thesis
  proof (cases "state = 0")
    case True
    with False assms show ?thesis by (simp add: get_next_state_def Let_def)
  next
    case nz: False
    with assms False have room: "1 \<le> state" "1 \<le> max_bonds - h_count" by auto
    let ?m = "min state (max_bonds - h_count)"
    show ?thesis
    proof (cases "get_num_from_bond bond > ?m")
      case True
      with room get_num_from_bond_range [of bond] have "1 \<le> ?m" "?m \<le> 3" by auto
      from get_bond_from_num_defined [OF this] obtain b where "get_bond_from_num ?m = Inr b" ..
      with True False nz assms show ?thesis by (simp add: get_next_state_def Let_def)
    next
      case le: False
      with False nz assms show ?thesis by (simp add: get_next_state_def Let_def)
    qed
  qed
qed

text \<open>
  C7 at \<open>[CH4expl]\<close> with the default table (carbon: 4 bonds), in the states 1 and 0,
  and at \<open>[CH5expl]\<close>.
\<close>

theorem get_next_state_excess_hydrogens_witness:
  "get_next_state default_bond_constraints ''[CH4expl]'' 1 = Inl ValueError
   \<and> (\<exists>fragment next_state.
        get_next_state default_bond_constraints ''[CH4expl]'' 0 = Inr (fragment, next_state))
   \<and> get_next_state default_bond_constraints ''[CH5expl]'' 0 = Inl ValueError"
proof -
  have n: "''[CH4expl]'' \<noteq> ''[epsilon]''" "''[CH5expl]'' \<noteq> ''[epsilon]''" by simp_all
  have b: "symbol_bond ''[CH4expl]'' = Inr ''''" "symbol_bond ''[CH5expl]'' = Inr ''''"
    by code_simp+
  have p4: "parse_atom_symbol (symbol_smiles ''[CH4expl]'' '''') = Inr (''C'', 4, 0)"
    by code_simp
  have p5: "parse_atom_symbol (symbol_smiles ''[CH5expl]'' '''') = Inr (''C'', 5, 0)"
    by code_simp
  have l: "lookup_max_bonds default_bond_constraints (atom_or_ion ''C'' 0) = Inr 4"
    by code_simp
  from get_next_state_excess_hydrogens [OF n(1) _ b(1) p4 l, of 1]
    get_next_state_excess_hydrogens [OF n(1) _ b(1) p4 l, of 0]
    get_next_state_excess_hydrogens [OF n(2) _ b(2) p5 l, of 0]
  show ?thesis by simp
qed

subsection \<open>Symbols without room\<close>

lemma contains_nonempty: "contains sub s \<Longrightarrow> sub \<noteq> [] \<Longrightarrow> s \<noteq> []"
  by (cases s) auto

text \<open>
  C8. When the loop meets a branch symbol (one with a branch type in \<open>[1, 3]\<close>) in a
  state 0 or 1, or a ring symbol in the state 0, the round is the same as the walk over
  the untouched rest of the stream, started in the same state with the same
  \<open>derived\<close>, \<open>prev_idx\<close>, \<open>branches\<close> and \<open>rings\<close>: no symbol is read for
  the branch or ring, nothing is appended, and the state does not change.
\<close>

theorem derive_loop_skips_without_room:
  assumes "(contains ''Branch'' curr_symbol \<and> 0 \<le> state \<and> state \<le> 1
              \<and> branch_type curr_symbol = Inr X \<and> 1 \<le> X \<and> X \<le> 3)
         \<or> (contains ''Ring'' curr_symbol \<and> \<not> contains ''Branch'' curr_symbol \<and> state = 0)"
  shows "translate_selfies_derive_loop bc curr_symbol state g derived prev_idx branches rings
       = translate_selfies_derive bc g state derived prev_idx branches rings"
  using assms
proof (elim disjE conjE)
  assume a: "contains ''Branch'' curr_symbol" "0 \<le> state" "state \<le> 1"
    "branch_type curr_symbol = Inr X" "1 \<le> X" "X \<le> 3"
  from a(1) have "curr_symbol \<noteq> []" by (rule contains_nonempty) simp
  with a show ?thesis
    by (subst translate_selfies_derive_loop.simps)
       (simp add: get_next_branch_state_def translate_selfies_derive_def)
next
  assume a: "contains ''Ring'' curr_symbol" "\<not> contains ''Branch'' curr_symbol" "state = 0"
  from a(1) have "curr_symbol \<noteq> []" by (rule contains_nonempty) simp
  with a show ?thesis
    by (subst translate_selfies_derive_loop.simps)
       (simp add: derive_ring_def translate_selfies_derive_def)
qed

text \<open>
  C8 at \<open>[Branch1_1]\<close> in state 1 and at \<open>[Ring1]\<close> in state 0, before the symbols
  \<open>[C][F]\<close>, which are then derived as atoms.
\<close>

theorem derive_loop_skips_without_room_witness:
  "translate_selfies_derive_loop default_bond_constraints ''[Branch1_1]'' 1
       (Gen [''[C]'', ''[F]''] False) [(''C'', 1, - 1)] 0 [] []
     = translate_selfies_derive default_bond_constraints
         (Gen [''[C]'', ''[F]''] False) 1 [(''C'', 1, - 1)] 0 [] []
   \<and> translate_selfies_derive_loop default_bond_constraints ''[Ring1]'' 0
       (Gen [''[C]'', ''[F]''] False) [] (- 1) [] []
     = translate_selfies_derive default_bond_constraints
         (Gen [''[C]'', ''[F]''] False) 0 [] (- 1) [] []
   \<and> translate_selfies_derive default_bond_constraints
         (Gen [''[C]'', ''[F]''] False) 0 [] (- 1) [] []
     = Inr ([(''C'', 3, - 1), (''F'', - 1, 0)], [], [])"
proof -
  have b: "contains ''Branch'' ''[Branch1_1]''" "branch_type ''[Branch1_1]'' = Inr 1"
    by code_simp+
  have r: "contains ''Ring'' ''[Ring1]''" "\<not> contains ''Branch'' ''[Ring1]''"
    by code_simp+
  have e: "translate_selfies_derive default_bond_constraints
         (Gen [''[C]'', ''[F]''] False) 0 [] (- 1) [] []
     = Inr ([(''C'', 3, - 1), (''F'', - 1, 0)], [], [])"
    by code_simp
  from b r e
    derive_loop_skips_without_room [of "''[Branch1_1]''" 1 1 default_bond_constraints
      "Gen [''[C]'', ''[F]''] False" "[(''C'', 1, - 1)]" 0 "[]" "[]"]
    derive_loop_skips_without_room [of "''[Ring1]''" 0 0 default_bond_constraints
      "Gen [''[C]'', ''[F]''] False" "[]" "- 1" "[]" "[]"]
  show ?thesis by simp
qed


subsection \<open>Fragments without a bracket\<close>

lemma find_char_absent: "c \<notin> set s \<Longrightarrow> find_char c s = None"
  by (induction s) auto

lemma find_char_first: "c \<notin> set pre \<Longrightarrow> find_char c (pre @ c # rest) = Some (length pre)"
  by (induction pre) auto

lemma parse_selfies_loop_outside:
  "\<not> (0 \<le> i \<and> i < int (length s)) \<Longrightarrow> parse_selfies_loop s i = ([], False)"
  by (subst parse_selfies_loop.simps) (rule if_not_P)

lemma parse_selfies_no_bracket:
  "CHR ''['' \<notin> set s \<Longrightarrow> parse_selfies s = Gen [] False"
  by (simp add: parse_selfies_def py_find_def find_char_absent parse_selfies_loop_outside)

lemma translate_selfies_no_bracket:
  assumes "CHR ''['' \<notin> set s"
  shows "translate_selfies bc s = Inr ''''"
proof -
  have "translate_selfies_derive bc (Gen [] False) 0 [] (- 1) [] [] = Inr ([], [], [])"
    by (simp add: translate_selfies_derive_def translate_selfies_derive_loop.simps)
  with assms show ?thesis
    by (simp add: translate_selfies_def parse_selfies_no_bracket form_rings_bilocally_def)
qed

lemma split_dot_chars: "\<forall>p \<in> set (split_dot s). set p \<subseteq> set s"
proof (induction s)
  case Nil
  show ?case by simp
next
  case (Cons c cs)
  show ?case
  proof (cases "split_dot cs")
    case Nil
    then show ?thesis by simp
  next
    case (Cons q qs)
    with Cons.IH have "set q \<subseteq> set cs" "\<forall>p \<in> set qs. set p \<subseteq> set cs" by simp_all
    with Cons show ?thesis by auto
  qed
qed

lemma translate_fragments_no_bracket:
  "\<forall>p \<in> set ps. CHR ''['' \<notin> set p \<Longrightarrow> translate_fragments bc ps acc = Inr acc"
  by (induction ps) (simp_all add: translate_selfies_no_bracket)

lemma decoder_no_bracket:
  assumes "CHR ''['' \<notin> set s"
  shows "fst (decoder s None reg) = Inr (Some '''')"
proof -
  from assms have "\<forall>p \<in> set (split_dot s). CHR ''['' \<notin> set p"
    using split_dot_chars [of s] by blast
  then have "translate_fragments bc (split_dot s) [] = Inr []" for bc
    by (rule translate_fragments_no_bracket)
  then show ?thesis
    by (simp add: decoder_def decoder_try_def restore_constraints_def
          get_semantic_constraints_def dict_copy_def split: prod.splits)
qed

lemma py_find_shift:
  "py_find (pre @ s) c (length pre + k)
     = (if py_find s c k = - 1 then - 1 else py_find s c k + int (length pre))"
  by (simp add: py_find_def split: option.splits)

lemma parse_selfies_loop_shift:
  "0 \<le> i \<Longrightarrow> parse_selfies_loop (pre @ s) (int (length pre) + i) = parse_selfies_loop s i"
proof (induction s i rule: parse_selfies_loop.induct)
  case (1 selfies left_idx)
  show ?case
  proof (cases "left_idx < int (length selfies)")
    case False
    with 1(2) show ?thesis by (simp add: parse_selfies_loop_outside)
  next
    case True
    define r where "r = py_find selfies CHR '']'' (nat (left_idx + 1))"
    have n: "nat (int (length pre) + left_idx + 1) = length pre + nat (left_idx + 1)"
      using 1(2) by simp
    have r': "py_find (pre @ selfies) CHR '']'' (nat (int (length pre) + left_idx + 1))
        = (if r = - 1 then - 1 else r + int (length pre))"
      unfolding n r_def by (rule py_find_shift)
    have c: "(pre @ selfies) ! nat (int (length pre) + left_idx) = selfies ! nat left_idx"
      using 1(2) by (simp add: nth_append nat_add_distrib)
    have inside: "0 \<le> int (length pre) + left_idx
        \<and> int (length pre) + left_idx < int (length (pre @ selfies))"
      using True 1(2) by simp
    have inside': "0 \<le> left_idx \<and> left_idx < int (length selfies)"
      using True 1(2) by simp
    show ?thesis
    proof (cases "selfies ! nat left_idx \<noteq> CHR ''['' \<or> r = - 1")
      case stop: True
      have "parse_selfies_loop selfies left_idx = ([], True)"
        using stop
        by (subst parse_selfies_loop.simps) (simp only: simp_thms inside' if_True Let_def r_def [symmetric])
      moreover have "parse_selfies_loop (pre @ selfies) (int (length pre) + left_idx) = ([], True)"
        using stop
        by (subst parse_selfies_loop.simps) (auto simp only: simp_thms inside if_True Let_def r' c)
      ultimately show ?thesis by simp
    next
      case go: False
      from py_find_range [of selfies "CHR '']''" "nat (left_idx + 1)"] go 1(2)
      have rge: "left_idx + 1 \<le> r" by (auto simp: r_def)
      have ih: "parse_selfies_loop (pre @ selfies) (int (length pre) + (r + 1))
                = parse_selfies_loop selfies (r + 1)"
        using 1(1) [of r] True 1(2) go rge by (simp add: r_def)
      have sl: "py_slice (pre @ selfies) (nat (int (length pre) + left_idx))
                  (nat (int (length pre) + (r + 1)))
                = py_slice selfies (nat left_idx) (nat (r + 1))"
        using 1(2) rge by (simp add: py_slice_def nat_add_distrib)
      have eq: "r + int (length pre) + 1 = int (length pre) + (r + 1)" by simp
      have go': "\<not> (selfies ! nat left_idx \<noteq> CHR ''['' \<or> (if r = - 1 then - 1 else r + int (length pre)) = - 1)"
        using go rge 1(2) by auto
      have rr: "(if r = - 1 then - 1 else r + int (length pre)) = r + int (length pre)"
        using go by simp
      have a: "parse_selfies_loop selfies left_idx
          = (let next_symbol = py_slice selfies (nat left_idx) (nat (r + 1));
                 (symbols, raises) = parse_selfies_loop selfies (r + 1)
             in (if next_symbol \<noteq> ''[nop]'' then next_symbol # symbols else symbols, raises))"
        using go
        by (subst parse_selfies_loop.simps)
           (simp only: simp_thms inside' if_True Let_def r_def [symmetric] if_False)
      have b: "parse_selfies_loop (pre @ selfies) (int (length pre) + left_idx)
          = (let next_symbol = py_slice (pre @ selfies) (nat (int (length pre) + left_idx))
                                 (nat (r + int (length pre) + 1));
                 (symbols, raises) = parse_selfies_loop (pre @ selfies)
                                       (r + int (length pre) + 1)
             in (if next_symbol \<noteq> ''[nop]'' then next_symbol # symbols else symbols, raises))"
        using go'
        by (subst parse_selfies_loop.simps)
           (simp only: simp_thms inside if_True Let_def r' c if_False rr)
      show ?thesis unfolding a b eq ih sl ..
    qed
  qed
qed

lemma parse_selfies_prefix:
  assumes "CHR ''['' \<notin> set pre"
  shows "parse_selfies (pre @ CHR ''['' # rest) = parse_selfies (CHR ''['' # rest)"
proof -
  have "py_find (pre @ CHR ''['' # rest) CHR ''['' 0 = int (length pre)"
    using assms by (simp add: py_find_def find_char_first)
  moreover have "py_find (CHR ''['' # rest) CHR ''['' 0 = 0"
    by (simp add: py_find_def)
  moreover have "parse_selfies_loop (pre @ CHR ''['' # rest) (int (length pre) + 0)
      = parse_selfies_loop (CHR ''['' # rest) 0"
    by (rule parse_selfies_loop_shift) simp
  ultimately show ?thesis by (simp add: parse_selfies_def)
qed

lemma translate_fragments_drop:
  "CHR ''['' \<notin> set s
   \<Longrightarrow> translate_fragments bc (before @ s # after) acc = translate_fragments bc (before @ after) acc"
proof (induction before arbitrary: acc)
  case Nil
  then show ?case by (simp add: translate_selfies_no_bracket)
next
  case (Cons f fs)
  show ?case
  proof (cases "translate_selfies bc f")
    case (Inl e)
    then show ?thesis by simp
  next
    case (Inr smiles)
    with Cons show ?thesis by simp
  qed
qed

lemma split_dot_nonempty: "split_dot s \<noteq> []"
  by (induction s) (auto split: list.splits)

lemma split_dot_no_dot: "CHR ''.'' \<notin> set f \<Longrightarrow> split_dot f = [f]"
  by (induction f) auto

lemma split_dot_at_dot:
  "CHR ''.'' \<notin> set f \<Longrightarrow> split_dot (f @ CHR ''.'' # rest) = f # split_dot rest"
proof (induction f)
  case Nil
  show ?case using split_dot_nonempty [of rest] by (cases "split_dot rest") simp_all
next
  case (Cons c cs)
  then show ?case by auto
qed

lemma split_dot_join_dot:
  "fs \<noteq> [] \<Longrightarrow> \<forall>f \<in> set fs. CHR ''.'' \<notin> set f \<Longrightarrow> split_dot (join_dot fs) = fs"
proof (induction fs rule: join_dot.induct)
  case 1
  then show ?case by simp
next
  case (2 x)
  then show ?case by (simp add: split_dot_no_dot)
next
  case (3 x y ys)
  then show ?case by (simp add: split_dot_at_dot)
qed

lemma decoder_by_fragments:
  assumes "\<And>bc. translate_fragments bc (split_dot a) [] = translate_fragments bc (split_dot b) []"
  shows "decoder a constraints reg = decoder b constraints reg"
proof -
  have eq: "decoder_try a = decoder_try b"
    by (intro ext) (simp add: decoder_try_def assms)
  show ?thesis unfolding decoder_def eq ..
qed

lemma decoder_drops_fragment:
  assumes s: "CHR ''['' \<notin> set s" "CHR ''.'' \<notin> set s"
    and fs: "\<forall>f \<in> set (before @ after). CHR ''.'' \<notin> set f" "before @ after \<noteq> []"
  shows "decoder (join_dot (before @ s # after)) constraints reg
       = decoder (join_dot (before @ after)) constraints reg"
proof (rule decoder_by_fragments)
  fix bc
  have "split_dot (join_dot (before @ s # after)) = before @ s # after"
    using s fs by (intro split_dot_join_dot) auto
  moreover have "split_dot (join_dot (before @ after)) = before @ after"
    using fs by (intro split_dot_join_dot) auto
  ultimately show "translate_fragments bc (split_dot (join_dot (before @ s # after))) []
      = translate_fragments bc (split_dot (join_dot (before @ after))) []"
    using s(1) by (simp add: translate_fragments_drop)
qed

text \<open>
  C10. For a string \<open>s\<close> without \<open>[\<close>: the symbol stream holds no symbol and yields
  the empty string at once, the fragment is translated to the empty string with no error,
  and \<open>decoder(s)\<close> returns the empty string. In the loop over the fragments such a
  fragment adds nothing, whatever fragments stand before and after it; and when it is one
  fragment of the input, beside others, \<open>split\<close> does find it and \<open>decoder\<close> returns
  what it returns for the input without it. The characters before the first \<open>[\<close> of a
  fragment are skipped: the fragment has the symbols, and the translation, of the
  fragment that starts at that bracket.
\<close>

theorem fragment_without_bracket_is_dropped:
  "(CHR ''['' \<notin> set s
      \<longrightarrow> parse_selfies s = Gen [] False
        \<and> gen_next (parse_selfies s) = Inr ('''', Gen [] False)
        \<and> translate_selfies bc s = Inr ''''
        \<and> fst (decoder s None reg) = Inr (Some '''')
        \<and> translate_fragments bc (before @ s # after) acc
            = translate_fragments bc (before @ after) acc)
   \<and> (CHR ''['' \<notin> set s \<and> CHR ''.'' \<notin> set s
        \<and> (\<forall>f \<in> set (before @ after). CHR ''.'' \<notin> set f) \<and> before @ after \<noteq> []
      \<longrightarrow> split_dot (join_dot (before @ s # after)) = before @ s # after
        \<and> decoder (join_dot (before @ s # after)) constraints reg
            = decoder (join_dot (before @ after)) constraints reg)
   \<and> (CHR ''['' \<notin> set pre
      \<longrightarrow> parse_selfies (pre @ CHR ''['' # rest) = parse_selfies (CHR ''['' # rest)
        \<and> translate_selfies bc (pre @ CHR ''['' # rest) = translate_selfies bc (CHR ''['' # rest))"
proof (intro conjI impI)
  assume s: "CHR ''['' \<notin> set s"
  then show g: "parse_selfies s = Gen [] False" by (rule parse_selfies_no_bracket)
  show "gen_next (parse_selfies s) = Inr ('''', Gen [] False)" unfolding g by simp
  from s show "translate_selfies bc s = Inr ''''" by (rule translate_selfies_no_bracket)
  from s show "fst (decoder s None reg) = Inr (Some '''')" by (rule decoder_no_bracket)
  from s show "translate_fragments bc (before @ s # after) acc
      = translate_fragments bc (before @ after) acc"
    by (rule translate_fragments_drop)
next
  assume a: "CHR ''['' \<notin> set s \<and> CHR ''.'' \<notin> set s
        \<and> (\<forall>f \<in> set (before @ after). CHR ''.'' \<notin> set f) \<and> before @ after \<noteq> []"
  then show "split_dot (join_dot (before @ s # after)) = before @ s # after"
    by (intro split_dot_join_dot) auto
  from a show "decoder (join_dot (before @ s # after)) constraints reg
      = decoder (join_dot (before @ after)) constraints reg"
    by (intro decoder_drops_fragment) simp_all
next
  assume "CHR ''['' \<notin> set pre"
  then show p: "parse_selfies (pre @ CHR ''['' # rest) = parse_selfies (CHR ''['' # rest)"
    by (rule parse_selfies_prefix)
  show "translate_selfies bc (pre @ CHR ''['' # rest) = translate_selfies bc (CHR ''['' # rest)"
    unfolding translate_selfies_def p ..
qed

text \<open>
  C10 at \<open>decoder('C')\<close>, at \<open>decoder('[C].x.[C]')\<close>, which returns \<open>C.C\<close>, and at
  the fragment \<open>xx[C]\<close>.
\<close>

theorem fragment_without_bracket_is_dropped_witness:
  "fst (decoder ''C'' None init_registry) = Inr (Some '''')
   \<and> parse_selfies ''C'' = Gen [] False
   \<and> decoder ''[C].x.[C]'' None init_registry = decoder ''[C].[C]'' None init_registry
   \<and> fst (decoder ''[C].x.[C]'' None init_registry) = Inr (Some ''C.C'')
   \<and> split_dot ''[C].x.[C]'' = [''[C]'', ''x'', ''[C]'']
   \<and> translate_selfies default_bond_constraints ''xx[C]''
       = translate_selfies default_bond_constraints ''[C]''
   \<and> translate_selfies default_bond_constraints ''[C]'' = Inr ''C''"
proof -
  have e: "translate_selfies default_bond_constraints ''[C]'' = Inr ''C''" by code_simp
  have d: "fst (decoder ''[C].[C]'' None init_registry) = Inr (Some ''C.C'')" by code_simp
  from e d
    fragment_without_bracket_is_dropped
      [of "''C''" default_bond_constraints init_registry "[]" "[]" "[]" None "''xx''" "''C]''"]
    fragment_without_bracket_is_dropped
      [of "''x''" default_bond_constraints init_registry "[''[C]'']" "[''[C]'']" "[]" None
          "''xx''" "''C]''"]
  show ?thesis by simp
qed

end
